theory Spec2Isabelle
  imports Complex_Main "HOL-Library.Multiset"
begin

section \<open>Eigenvalues of a density matrix by the Faddeev-LeVerrier recursion\<close>

text \<open>
  The notebook \<^verbatim>\<open>tutorial.ipynb\<close> defines three Python functions: \<^verbatim>\<open>get_traces\<close>,
  \<^verbatim>\<open>c_n_m\<close> and \<^verbatim>\<open>compute_coefs\<close>, and hands the coefficients to numpy's polynomial
  root finder. This theory embeds the three functions and states the properties of the
  specification about them.

  Numbers. The notebook computes with numpy floats and complex floats. The embedding takes
  the numbers from an arbitrary field (\<open>'a::field\<close>; \<open>real\<close> and \<open>complex\<close> are the
  instances used below), so every arithmetic operation is exact: rounding is not modelled.
  The integer arguments are unbounded integers.

  Errors. A Python exception is a value \<open>Inl e\<close> of the sum type \<open>error + 'a\<close>.
\<close>

subsection \<open>Errors and array indexing\<close>

text \<open>
  \<open>LinAlgError\<close> is what \<^verbatim>\<open>np.linalg.matrix_power\<close> raises on a matrix that is not
  square. \<open>InvalidDimension\<close> is the error named by the specification; no statement of the
  source raises it.
\<close>

datatype error = LinAlgError | InvalidDimension

text \<open>
  The only subscript of the source, \<^verbatim>\<open>vec_of_traces[k-1]\<close>, is inside \<^verbatim>\<open>c_n_m\<close>, which the
  notebook compiles with \<^verbatim>\<open>@jit(nopython=True)\<close>. Compiled that way a subscript is not
  checked against the length of the array: a negative subscript counts from the end, and a
  subscript that is still out of range reads the memory next to the array and yields a
  number. What is found there is the parameter \<open>beyond\<close>; nothing is assumed about it.
\<close>

definition getitem :: "(int \<Rightarrow> 'a) \<Rightarrow> 'a list \<Rightarrow> int \<Rightarrow> 'a" where
  "getitem beyond a i =
     (let j = (if i < 0 then i + int (length a) else i)
      in if 0 \<le> j \<and> j < int (length a) then a ! nat j else beyond j)"

subsection \<open>Matrices and \<^verbatim>\<open>get_traces\<close>\<close>

text \<open>
  A two-dimensional numpy array is its shape together with its entries: \<open>shape0 rho\<close> is
  \<^verbatim>\<open>rho.shape[0]\<close>, \<open>shape1 rho\<close> is \<^verbatim>\<open>rho.shape[1]\<close> and \<open>item rho i j\<close> is
  \<^verbatim>\<open>rho[i, j]\<close>, read only for \<open>i < shape0 rho\<close> and \<open>j < shape1 rho\<close>. An array may have
  no rows and still have columns, as \<^verbatim>\<open>np.zeros((0, 3))\<close> has.
\<close>

record 'a ndarray =
  shape0 :: nat
  shape1 :: nat
  item :: "nat \<Rightarrow> nat \<Rightarrow> 'a"

text \<open>\<^verbatim>\<open>np.array(rows)\<close> for a list of rows of one length, and \<^verbatim>\<open>np.zeros((r, c))\<close>.\<close>

definition array :: "'a list list \<Rightarrow> 'a ndarray" where
  "array rows =
     \<lparr>shape0 = length rows,
      shape1 = (case rows of [] \<Rightarrow> 0 | row # _ \<Rightarrow> length row),
      item = (\<lambda>i j. rows ! i ! j)\<rparr>"

definition zeros :: "nat \<Rightarrow> nat \<Rightarrow> 'a::zero ndarray" where
  "zeros r c = \<lparr>shape0 = r, shape1 = c, item = (\<lambda>i j. 0)\<rparr>"

definition square :: "'a ndarray \<Rightarrow> bool" where
  "square a = (shape0 a = shape1 a)"

text \<open>
  The numpy primitives the notebook calls are library code, outside the repository. They
  are given their documented meaning: \<^verbatim>\<open>np.trace\<close> sums the main diagonal,
  \<^verbatim>\<open>np.linalg.matrix_power(a, n)\<close> raises \<open>LinAlgError\<close> unless \<open>a\<close> is square and
  otherwise is the \<open>n\<close>-fold matrix product of \<open>a\<close> (the identity for \<open>n = 0\<close>). The
  product \<open>matmul\<close> is only ever applied to square matrices of one size, inside \<open>mat_pow\<close>.
\<close>

definition trace :: "'a::comm_monoid_add ndarray \<Rightarrow> 'a" where
  "trace a = (\<Sum>i\<leftarrow>[0..<min (shape0 a) (shape1 a)]. item a i i)"

definition matmul :: "'a::semiring_0 ndarray \<Rightarrow> 'a ndarray \<Rightarrow> 'a ndarray" where
  "matmul a b =
     \<lparr>shape0 = shape0 a, shape1 = shape1 b,
      item = (\<lambda>i j. \<Sum>k\<leftarrow>[0..<shape1 a]. item a i k * item b k j)\<rparr>"

definition identity :: "nat \<Rightarrow> 'a::semiring_1 ndarray" where
  "identity n = \<lparr>shape0 = n, shape1 = n, item = (\<lambda>i j. if i = j then 1 else 0)\<rparr>"

fun mat_pow :: "'a::semiring_1 ndarray \<Rightarrow> nat \<Rightarrow> 'a ndarray" where
  "mat_pow a 0 = identity (shape0 a)"
| "mat_pow a (Suc 0) = a"
| "mat_pow a (Suc (Suc n)) = matmul (mat_pow a (Suc n)) a"

definition matrix_power :: "'a::semiring_1 ndarray \<Rightarrow> nat \<Rightarrow> error + 'a ndarray" where
  "matrix_power a n = (if square a then Inr (mat_pow a n) else Inl LinAlgError)"

text \<open>
  \<^verbatim>\<open>
  def get_traces(rho):
      traces = []
      for i in range(rho.shape[0]):
          traces.append(np.trace( np.linalg.matrix_power(rho, i+1)))
      return np.array(traces)
  \<close>
  The function takes the matrix only: there is no dimension argument.
\<close>

definition get_traces :: "'a::semiring_1 ndarray \<Rightarrow> error + 'a list" where
  "get_traces rho =
     fold (\<lambda>i acc.
             case acc of
               Inl e \<Rightarrow> Inl e
             | Inr traces \<Rightarrow>
                 (case matrix_power rho (i + 1) of
                    Inl e \<Rightarrow> Inl e
                  | Inr p \<Rightarrow> Inr (traces @ [trace p])))
          [0..<shape0 rho] (Inr [])"

subsection \<open>The auxiliary function \<^verbatim>\<open>c_n_m\<close> and \<^verbatim>\<open>compute_coefs\<close>\<close>

text \<open>
  \<^verbatim>\<open>
  @jit(nopython=True)
  def c_n_m(n, m, vec_of_traces):
      suma = 0
      if (m==0):
          return 1.
      for k in range(1, m+1):
          suma = suma + c_n_m(n, m-k, vec_of_traces) * vec_of_traces[k-1]
      return suma*(-1/m)
  \<close>
  The loop over \<^verbatim>\<open>range(1, m+1)\<close> is a fold over \<open>[1..m]\<close> (empty when \<open>m < 1\<close>) with the
  running sum as accumulator. The function has no raising statement and its subscript
  cannot raise, so it is a total function; that the recursion ends is proved with the
  definition.
\<close>

function c_n_m :: "(int \<Rightarrow> 'a) \<Rightarrow> int \<Rightarrow> int \<Rightarrow> 'a::field list \<Rightarrow> 'a" where
  "c_n_m beyond n m vec_of_traces =
     (if m = 0 then 1
      else
        fold (\<lambda>k suma.
                suma + c_n_m beyond n (m - k) vec_of_traces * getitem beyond vec_of_traces (k - 1))
             [1..m] 0
        * (- 1 / of_int m))"
  by pat_completeness auto
termination
  by (relation "measure (\<lambda>(b, n, m, v). nat m)") auto

declare c_n_m.simps [simp del]

text \<open>
  \<^verbatim>\<open>
  @jit(nopython=True)
  def compute_coefs(n, vec_of_traces):
      c_list = [1.]
      for m in range(1, n+1):
          c_list.append(c_n_m(n, m, vec_of_traces) )
      return np.array(c_list)
  \<close>
\<close>

definition compute_coefs :: "(int \<Rightarrow> 'a) \<Rightarrow> int \<Rightarrow> 'a::field list \<Rightarrow> 'a list" where
  "compute_coefs beyond n vec_of_traces =
     fold (\<lambda>m c_list. c_list @ [c_n_m beyond n m vec_of_traces]) [1..n] [1]"

subsection \<open>The polynomial handed to the root finder\<close>

text \<open>
  \<^verbatim>\<open>poly = np.polynomial.polynomial.Polynomial(coefs[::-1])\<close> is the polynomial whose
  coefficient list starts with the constant term; \<open>Polynomial coef x\<close> is its value at
  \<open>x\<close>. \<^verbatim>\<open>poly.roots()\<close> is numpy's solver; a root is a number \<open>x\<close> with
  \<open>Polynomial (rev coefs) x = 0\<close>.
\<close>

fun Polynomial :: "'a::comm_semiring_0 list \<Rightarrow> 'a \<Rightarrow> 'a" where
  "Polynomial [] x = 0"
| "Polynomial (c # coef) x = c + x * Polynomial coef x"

subsection \<open>The recursion of the specification\<close>

text \<open>
  The specification's auxiliary function, in its own words: \<open>auxiliary(0) = 1\<close> and, for
  \<open>m \<ge> 1\<close>, \<open>auxiliary(m) = -(1/m) \<cdot> \<Sum>\<^bsub>k=1..m\<^esub> auxiliary(m-k) \<cdot> traces[k-1]\<close>. It is
  the reference the source function is compared with.
\<close>

fun auxiliary :: "'a::field list \<Rightarrow> nat \<Rightarrow> 'a" where
  "auxiliary traces m =
     (if m = 0 then 1
      else - (1 / of_nat m) * (\<Sum>k\<leftarrow>[1..<Suc m]. auxiliary traces (m - k) * traces ! (k - 1)))"

declare auxiliary.simps [simp del]

text \<open>
  The bottom-up table the specification asks for: a table of size \<open>d + 1\<close>, entry 0
  is 1, and each further entry is computed from the entries already stored. It is not in the
  source; it is the cached evaluation the source function is compared with.
\<close>

definition aux_next :: "'a::field list \<Rightarrow> 'a list \<Rightarrow> 'a" where
  "aux_next traces table =
     (let m = length table
      in - (1 / of_nat m) * (\<Sum>k\<leftarrow>[1..<Suc m]. table ! (m - k) * traces ! (k - 1)))"

fun aux_table :: "'a::field list \<Rightarrow> nat \<Rightarrow> 'a list" where
  "aux_table traces 0 = [1]"
| "aux_table traces (Suc d) = (let table = aux_table traces d in table @ [aux_next traces table])"

subsection \<open>Counting the executions of the body of \<^verbatim>\<open>c_n_m\<close>\<close>

text \<open>
  \<open>c_n_m_calls\<close> is \<open>c_n_m\<close> with a counter threaded through it: the counter is
  increased by one each time the body of the function is entered, and is otherwise only
  passed along. Its first component is the result of \<open>c_n_m\<close> (lemma \<open>c_n_m_calls_fst\<close>).
\<close>

function c_n_m_calls :: "(int \<Rightarrow> 'a) \<Rightarrow> int \<Rightarrow> int \<Rightarrow> 'a::field list \<Rightarrow> nat \<Rightarrow> 'a \<times> nat" where
  "c_n_m_calls beyond n m vec_of_traces calls =
     (if m = 0 then (1, calls + 1)
      else
        (case fold (\<lambda>k (suma, cnt).
                      (case c_n_m_calls beyond n (m - k) vec_of_traces cnt of
                         (c, cnt') \<Rightarrow> (suma + c * getitem beyond vec_of_traces (k - 1), cnt')))
                   [1..m] (0, calls + 1) of
           (suma, cnt) \<Rightarrow> (suma * (- 1 / of_int m), cnt)))"
  by pat_completeness auto
termination
  by (relation "measure (\<lambda>(b, n, m, v, c). nat m)") auto

declare c_n_m_calls.simps [simp del]

subsection \<open>Roots and eigenvalues\<close>





subsection \<open>Notions used in the proofs\<close>

text \<open>
  The coefficients of \<open>\<Prod>(x - e)\<close> over a list \<open>es\<close>, highest power first (the elementary
  symmetric functions with alternating sign), and the power sums of the list.
\<close>

primrec esym :: "'a::comm_ring_1 list \<Rightarrow> nat \<Rightarrow> 'a" where
  "esym [] m = (if m = 0 then 1 else 0)"
| "esym (e # es) m = esym es m - e * (if m = 0 then 0 else esym es (m - 1))"



definition clip :: "nat \<Rightarrow> (nat \<Rightarrow> nat \<Rightarrow> 'a::zero) \<Rightarrow> nat \<Rightarrow> nat \<Rightarrow> 'a" where
  "clip d X = (\<lambda>i j. if i < d \<and> j < d then X i j else 0)"








section \<open>Properties of the coefficient builder\<close>

subsection \<open>The two loops\<close>

lemma upto_int_Suc: "[1..int (Suc j)] = [1..int j] @ [int j + 1]"
  using upto_rec2 [of 1 "int j + 1"] by (simp add: add.commute)

lemma fold_sum_loop:
  assumes "\<And>k s. 1 \<le> k \<Longrightarrow> k \<le> j \<Longrightarrow> F (int k) s = s + g k"
  shows "fold F [1..int j] s0 = s0 + (\<Sum>k\<leftarrow>[1..<Suc j]. g k)"
  using assms
proof (induction j)
  case 0
  show ?case by simp
next
  case (Suc j)
  have "fold F [1..int j] s0 = s0 + (\<Sum>k\<leftarrow>[1..<Suc j]. g k)"
    using Suc.IH Suc.prems by simp
  moreover have "F (int j + 1) s = s + g (Suc j)" for s
    using Suc.prems [of "Suc j" s] by (simp add: add.commute)
  ultimately show ?case
    by (simp add: upto_int_Suc add.assoc del: of_nat_Suc)
qed

lemma getitem_in_range:
  "0 \<le> i \<Longrightarrow> i < int (length a) \<Longrightarrow> getitem beyond a i = a ! nat i"
  by (simp add: getitem_def)

lemma getitem_past_end: "int (length a) \<le> i \<Longrightarrow> getitem beyond a i = beyond i"
  by (simp add: getitem_def)

lemma c_n_m_unfold:
  "c_n_m beyond n (int m) v =
     (if m = 0 then 1
      else - (1 / of_nat m)
           * (\<Sum>k\<leftarrow>[1..<Suc m]. c_n_m beyond n (int (m - k)) v * getitem beyond v (int k - 1)))"
proof (cases "m = 0")
  case True
  then show ?thesis by (simp add: c_n_m.simps)
next
  case False
  let ?F = "\<lambda>k suma. suma + c_n_m beyond n (int m - k) v * getitem beyond v (k - 1)"
  have "fold ?F [1..int m] 0
      = 0 + (\<Sum>k\<leftarrow>[1..<Suc m]. c_n_m beyond n (int (m - k)) v * getitem beyond v (int k - 1))"
  proof (rule fold_sum_loop)
    fix k :: nat and s :: 'a
    assume "1 \<le> k" "k \<le> m"
    then have "int m - int k = int (m - k)" by simp
    then show "?F (int k) s = s + c_n_m beyond n (int (m - k)) v * getitem beyond v (int k - 1)"
      by (simp only:)
  qed
  moreover have "c_n_m beyond n (int m) v = fold ?F [1..int m] 0 * (- 1 / of_int (int m))"
    using False by (subst c_n_m.simps) simp
  ultimately show ?thesis using False by simp
qed

lemma c_n_m_nat:
  "m \<le> length v \<Longrightarrow> c_n_m beyond n (int m) v = auxiliary v m"
proof (induction m rule: less_induct)
  case (less m)
  have "(\<Sum>k\<leftarrow>[1..<Suc m]. c_n_m beyond n (int (m - k)) v * getitem beyond v (int k - 1))
      = (\<Sum>k\<leftarrow>[1..<Suc m]. auxiliary v (m - k) * v ! (k - 1))"
  proof (rule arg_cong [where f = sum_list], rule map_cong [OF refl])
    fix k
    assume "k \<in> set [1..<Suc m]"
    then have k: "1 \<le> k" "k \<le> m" by auto
    then have "c_n_m beyond n (int (m - k)) v = auxiliary v (m - k)"
      using less.IH [of "m - k"] less.prems by simp
    moreover have "getitem beyond v (int k - 1) = v ! (k - 1)"
      using getitem_in_range [of "int k - 1" v beyond] k less.prems
      by (simp add: nat_diff_distrib')
    ultimately show "c_n_m beyond n (int (m - k)) v * getitem beyond v (int k - 1)
        = auxiliary v (m - k) * v ! (k - 1)"
      by (simp only:)
  qed
  then show ?case
    by (subst c_n_m_unfold, subst auxiliary.simps) (simp only:)
qed

lemma c_n_m_one: "1 \<le> length v \<Longrightarrow> c_n_m beyond n 1 v = - (v ! 0)"
  using c_n_m_nat [of 1 v beyond n] by (simp add: auxiliary.simps)

lemma fold_append_loop:
  assumes "\<And>k acc. 1 \<le> k \<Longrightarrow> k \<le> j \<Longrightarrow> G (int k) acc = acc @ [g k]"
  shows "fold G [1..int j] a0 = a0 @ map g [1..<Suc j]"
  using assms
proof (induction j)
  case 0
  show ?case by simp
next
  case (Suc j)
  have "fold G [1..int j] a0 = a0 @ map g [1..<Suc j]"
    using Suc.IH Suc.prems by simp
  moreover have "G (int j + 1) acc = acc @ [g (Suc j)]" for acc
    using Suc.prems [of "Suc j" acc] by (simp add: add.commute)
  ultimately show ?case
    by (simp add: upto_int_Suc del: of_nat_Suc)
qed

lemma compute_coefs_loop:
  "compute_coefs beyond (int d) v = 1 # map (\<lambda>m. c_n_m beyond (int d) (int m) v) [1..<Suc d]"
proof -
  have "fold (\<lambda>m c_list. c_list @ [c_n_m beyond (int d) m v]) [1..int d] [1]
      = [1] @ map (\<lambda>m. c_n_m beyond (int d) (int m) v) [1..<Suc d]"
    by (rule fold_append_loop) simp
  then show ?thesis by (simp only: compute_coefs_def append_Cons append_Nil)
qed

lemma compute_coefs_nonpositive: "n < 1 \<Longrightarrow> compute_coefs beyond n v = [1]"
  by (simp add: compute_coefs_def)

lemma length_compute_coefs: "length (compute_coefs beyond n v) = nat n + 1"
proof (cases "n < 1")
  case True
  then show ?thesis by (simp add: compute_coefs_nonpositive)
next
  case False
  then obtain d where "n = int d"
    using zero_le_imp_eq_int [of n] by auto
  then show ?thesis
    by (simp add: compute_coefs_loop del: upt_Suc)
qed

lemma compute_coefs_nth:
  assumes "1 \<le> m" and "m \<le> d"
  shows "compute_coefs beyond (int d) v ! m = c_n_m beyond (int d) (int m) v"
proof -
  have lt: "m - 1 < d" and m: "Suc (m - 1) = m" using assms by arith+
  have "(1 # map (\<lambda>m. c_n_m beyond (int d) (int m) v) [1..<Suc d]) ! m
      = map (\<lambda>m. c_n_m beyond (int d) (int m) v) [1..<Suc d] ! (m - 1)"
    using assms(1) by (simp add: nth_Cons')
  also have "\<dots> = c_n_m beyond (int d) (int ([1..<Suc d] ! (m - 1))) v"
    using lt by (intro nth_map) simp
  also have "[1..<Suc d] ! (m - 1) = m"
    using nth_upt [of 1 "m - 1" "Suc d"] lt m by (simp del: upt_Suc)
  finally show ?thesis
    by (simp only: compute_coefs_loop)
qed

lemma compute_coefs_hd: "compute_coefs beyond n v ! 0 = 1"
proof (cases "n < 1")
  case True
  then show ?thesis by (simp add: compute_coefs_nonpositive)
next
  case False
  then obtain d where "n = int d"
    using zero_le_imp_eq_int [of n] by auto
  then show ?thesis
    by (simp add: compute_coefs_loop del: upt_Suc)
qed

subsection \<open>The body of \<^verbatim>\<open>c_n_m\<close> is executed exponentially often\<close>

lemma fold_count_loop:
  assumes "\<And>k s c. 1 \<le> k \<Longrightarrow> k \<le> j \<Longrightarrow> F (int k) (s, c) = (s + g k, c + t k)"
  shows "fold F [1..int j] (s0, c0)
           = (s0 + (\<Sum>k\<leftarrow>[1..<Suc j]. g k), c0 + (\<Sum>k\<leftarrow>[1..<Suc j]. t k))"
  using assms
proof (induction j)
  case 0
  show ?case by simp
next
  case (Suc j)
  have "fold F [1..int j] (s0, c0)
           = (s0 + (\<Sum>k\<leftarrow>[1..<Suc j]. g k), c0 + (\<Sum>k\<leftarrow>[1..<Suc j]. t k))"
    using Suc.IH Suc.prems by simp
  moreover have "F (int j + 1) (s, c) = (s + g (Suc j), c + t (Suc j))" for s c
    using Suc.prems [of "Suc j" s c] by (simp add: add.commute)
  ultimately show ?case
    by (simp add: upto_int_Suc add.assoc del: of_nat_Suc)
qed

lemma sum_list_powers_of_two: "(\<Sum>k\<leftarrow>[1..<Suc m]. 2 ^ (m - k)) + 1 = (2::nat) ^ m"
proof (induction m)
  case 0
  show ?case by simp
next
  case (Suc m)
  have "(\<Sum>k\<leftarrow>[1..<Suc m]. (2::nat) ^ (Suc m - k)) = (\<Sum>k\<leftarrow>[1..<Suc m]. 2 * 2 ^ (m - k))"
    by (rule arg_cong [where f = sum_list], rule map_cong) (auto simp: Suc_diff_le)
  also have "\<dots> = 2 * (\<Sum>k\<leftarrow>[1..<Suc m]. 2 ^ (m - k))"
    by (simp add: sum_list_const_mult)
  finally show ?case using Suc.IH by simp
qed

lemma c_n_m_calls_nat:
  "c_n_m_calls beyond n (int m) v calls = (c_n_m beyond n (int m) v, calls + 2 ^ m)"
proof (induction m arbitrary: calls rule: less_induct)
  case (less m)
  show ?case
  proof (cases "m = 0")
    case True
    then show ?thesis by (simp add: c_n_m_calls.simps c_n_m.simps)
  next
    case False
    let ?F' = "\<lambda>k (suma, cnt).
                 (case c_n_m_calls beyond n (int m - k) v cnt of
                    (c, cnt') \<Rightarrow> (suma + c * getitem beyond v (k - 1), cnt'))"
    have "fold ?F' [1..int m] (0, calls + 1)
            = (0 + (\<Sum>k\<leftarrow>[1..<Suc m]. c_n_m beyond n (int (m - k)) v * getitem beyond v (int k - 1)),
               calls + 1 + (\<Sum>k\<leftarrow>[1..<Suc m]. 2 ^ (m - k)))"
    proof (rule fold_count_loop)
      fix k :: nat and s :: 'a and c :: nat
      assume k: "1 \<le> k" "k \<le> m"
      then have "int m - int k = int (m - k)" by simp
      moreover have "c_n_m_calls beyond n (int (m - k)) v c
          = (c_n_m beyond n (int (m - k)) v, c + 2 ^ (m - k))"
        using k by (intro less) simp
      ultimately have "c_n_m_calls beyond n (int m - int k) v c
          = (c_n_m beyond n (int (m - k)) v, c + 2 ^ (m - k))"
        by (simp only:)
      then show "?F' (int k) (s, c)
          = (s + c_n_m beyond n (int (m - k)) v * getitem beyond v (int k - 1), c + 2 ^ (m - k))"
        by (simp only: prod.case)
    qed
    moreover have "c_n_m_calls beyond n (int m) v calls =
        (case fold ?F' [1..int m] (0, calls + 1) of
           (suma, cnt) \<Rightarrow> (suma * (- 1 / of_int (int m)), cnt))"
      using False by (subst c_n_m_calls.simps) simp
    moreover have "c_n_m beyond n (int m) v
        = - (1 / of_nat m)
           * (\<Sum>k\<leftarrow>[1..<Suc m]. c_n_m beyond n (int (m - k)) v * getitem beyond v (int k - 1))"
      using False by (subst c_n_m_unfold) simp
    moreover have "calls + 1 + (\<Sum>k\<leftarrow>[1..<Suc m]. 2 ^ (m - k)) = calls + 2 ^ m"
      using sum_list_powers_of_two [of m] by simp
    ultimately show ?thesis
      by simp
  qed
qed

lemma c_n_m_calls_fst: "fst (c_n_m_calls beyond n m v calls) = c_n_m beyond n m v"
proof (cases "0 \<le> m")
  case True
  then have "m = int (nat m)" by simp
  then show ?thesis
    using c_n_m_calls_nat [of beyond n "nat m" v calls] by simp
next
  case False
  then have "[1..m] = []" and "m \<noteq> 0" by simp_all
  then show ?thesis
    by (subst c_n_m_calls.simps, subst c_n_m.simps) simp
qed

lemma length_aux_table: "length (aux_table traces d) = Suc d"
  by (induction d) (simp_all add: Let_def)

lemma aux_table_nth: "m \<le> d \<Longrightarrow> aux_table traces d ! m = auxiliary traces m"
proof (induction d arbitrary: m)
  case 0
  then show ?case by (simp add: auxiliary.simps)
next
  case (Suc d)
  show ?case
  proof (cases "m \<le> d")
    case True
    then show ?thesis
      using Suc.IH [of m] by (simp add: Let_def nth_append length_aux_table)
  next
    case False
    then have m: "m = Suc d" using Suc.prems by simp
    have "(\<Sum>k\<leftarrow>[1..<Suc (Suc d)]. aux_table traces d ! (Suc d - k) * traces ! (k - 1))
        = (\<Sum>k\<leftarrow>[1..<Suc (Suc d)]. auxiliary traces (Suc d - k) * traces ! (k - 1))"
      by (rule arg_cong [where f = sum_list], rule map_cong) (auto simp: Suc.IH)
    then have "aux_next traces (aux_table traces d) = auxiliary traces (Suc d)"
      by (subst auxiliary.simps) (simp add: aux_next_def length_aux_table del: upt_Suc)
    then show ?thesis
      by (simp add: m Let_def nth_append length_aux_table)
  qed
qed

section \<open>Properties of the trace vector\<close>

lemma fold_Inl:
  assumes "\<And>k e. F k (Inl e) = Inl e"
  shows "fold F ks (Inl e) = Inl e"
  by (induction ks) (simp_all add: assms)

lemma fold_append_range:
  assumes "\<And>i acc. i < n \<Longrightarrow> G i (Inr acc) = Inr (acc @ [g i])"
  shows "fold G [0..<n] (Inr a0) = Inr (a0 @ map g [0..<n])"
  using assms by (induction n) simp_all

lemma get_traces_square:
  assumes "square rho"
  shows "get_traces rho = Inr (map (\<lambda>i. trace (mat_pow rho (i + 1))) [0..<shape0 rho])"
proof -
  let ?G = "\<lambda>i acc. case acc of
               Inl e \<Rightarrow> Inl e
             | Inr traces \<Rightarrow>
                 (case matrix_power rho (i + 1) of
                    Inl e \<Rightarrow> Inl e
                  | Inr p \<Rightarrow> Inr (traces @ [trace p]))"
  have "fold ?G [0..<shape0 rho] (Inr [])
          = Inr ([] @ map (\<lambda>i. trace (mat_pow rho (i + 1))) [0..<shape0 rho])"
    by (rule fold_append_range) (simp add: matrix_power_def assms)
  then show ?thesis by (simp only: get_traces_def append_Nil)
qed

lemma get_traces_no_rows: "shape0 rho = 0 \<Longrightarrow> get_traces rho = Inr []"
  by (simp add: get_traces_def)

lemma get_traces_not_square:
  assumes "\<not> square rho" and "shape0 rho \<noteq> 0"
  shows "get_traces rho = Inl LinAlgError"
proof -
  let ?G = "\<lambda>i acc. case acc of
               Inl e \<Rightarrow> Inl e
             | Inr traces \<Rightarrow>
                 (case matrix_power rho (i + 1) of
                    Inl e \<Rightarrow> Inl e
                  | Inr p \<Rightarrow> Inr (traces @ [trace p]))"
  have "[0..<shape0 rho] = 0 # [1..<shape0 rho]"
    using assms(2) by (simp add: upt_conv_Cons)
  moreover have "?G 0 (Inr []) = Inl LinAlgError"
    using assms(1) by (simp add: matrix_power_def)
  moreover have "fold ?G ks (Inl LinAlgError) = Inl LinAlgError" for ks
    by (rule fold_Inl) simp
  ultimately show ?thesis by (simp add: get_traces_def)
qed

section \<open>The four-dimensional scenario\<close>

lemma scenario_coefs:
  "compute_coefs beyond 4 [1, 0.4372, 0.2299, 0.1290 :: 'a::field_char_0]
     = [1, - 1, 0.2814, - 0.0247, 0.00064298]"
proof -
  let ?v = "[1, 0.4372, 0.2299, 0.1290 :: 'a]"
  have "map (\<lambda>m. c_n_m beyond (int 4) (int m) ?v) [1..<Suc 4] = map (auxiliary ?v) [1..<Suc 4]"
    by (rule map_cong [OF refl]) (simp add: c_n_m_nat)
  also have "\<dots> = [- 1, 0.2814, - 0.0247, 0.00064298]"
    by (simp add: auxiliary.simps upt_rec)
  finally show ?thesis
    using compute_coefs_loop [of beyond 4 ?v] by simp
qed

lemma quartic_shift:
  fixes a h :: "'a::comm_ring_1"
  shows "c4 + (a + h) * (c3 + (a + h) * (c2 + (a + h) * (- 1 + (a + h))))
     = (c4 + a * (c3 + a * (c2 + a * (- 1 + a))))
       + h * ((4 * a * a * a - 3 * a * a + 2 * c2 * a + c3)
              + h * ((6 * a * a - 3 * a + c2) + h * ((4 * a - 1) + h)))"
  by (simp add: algebra_simps)

lemma scenario_expand:
  fixes h :: "'a::field_char_0"
  shows "Polynomial (rev [1, - 1, 0.2814, - 0.0247, 0.00064298]) (0.0502 + h)
     = - (4985093999 / 625000000000000)
       + h * (- (109422999 / 31250000000) + h * (1824003 / 12500000 + h * (- (999 / 1250) + h)))"
proof -
  have "Polynomial (rev [1, - 1, 0.2814, - 0.0247, 0.00064298]) (0.0502 + h)
      = 0.00064298 + (0.0502 + h) * (- 0.0247 + (0.0502 + h) * (0.2814 + (0.0502 + h) * (- 1 + (0.0502 + h))))"
    by simp
  also have "\<dots> = (0.00064298 + 0.0502 * (- 0.0247 + 0.0502 * (0.2814 + 0.0502 * (- 1 + 0.0502))))
       + h * ((4 * 0.0502 * 0.0502 * 0.0502 - 3 * 0.0502 * 0.0502 + 2 * 0.2814 * 0.0502 + (- 0.0247))
              + h * ((6 * 0.0502 * 0.0502 - 3 * 0.0502 + 0.2814) + h * ((4 * 0.0502 - 1) + h)))"
    by (rule quartic_shift)
  also have "\<dots> = - (4985093999 / 625000000000000)
       + h * (- (109422999 / 31250000000) + h * (1824003 / 12500000 + h * (- (999 / 1250) + h)))"
    by simp
  finally show ?thesis .
qed

lemma norm_affine_bound:
  fixes h :: complex
  assumes "norm h \<le> d" and "norm X \<le> b" and "norm A \<le> c"
  shows "norm (A + h * X) \<le> c + d * b"
proof -
  have "norm (A + h * X) \<le> norm A + norm h * norm X"
    using norm_triangle_ineq [of A "h * X"] by (simp add: norm_mult)
  moreover have "norm h * norm X \<le> d * b"
    using assms(1,2) by (intro mult_mono) (auto intro: order_trans [OF norm_ge_zero])
  ultimately show ?thesis using assms(3) by linarith
qed

lemma scenario_no_root_near:
  fixes z :: complex
  assumes "norm (z - 0.0502) \<le> 0.0001"
  shows "Polynomial (rev [1, - 1, 0.2814, - 0.0247, 0.00064298]) z \<noteq> 0"
proof
  define h where "h = z - 0.0502"
  have hd: "norm h \<le> 0.0001" using assms by (simp add: h_def)
  assume "Polynomial (rev [1, - 1, 0.2814, - 0.0247, 0.00064298]) z = 0"
  then have "Polynomial (rev [1, - 1, 0.2814, - 0.0247, 0.00064298]) (0.0502 + h) = 0"
    by (simp add: h_def)
  then have eq: "h * (- (109422999 / 31250000000) + h * (1824003 / 12500000 + h * (- (999 / 1250) + h * 1)))
      = 4985093999 / 625000000000000"
    by (simp only: scenario_expand mult_1_right) (simp add: add_eq_0_iff)
  have "norm (- (999 / 1250) + h * 1) \<le> 999 / 1250 + 0.0001 * 1"
    by (rule norm_affine_bound [OF hd]) simp_all
  then have b3: "norm (- (999 / 1250) + h * 1) \<le> 1" by simp
  have "norm (1824003 / 12500000 + h * (- (999 / 1250) + h * 1)) \<le> 1824003 / 12500000 + 0.0001 * 1"
    by (rule norm_affine_bound [OF hd b3]) simp
  then have b2: "norm (1824003 / 12500000 + h * (- (999 / 1250) + h * 1)) \<le> 1" by simp
  have "norm (- (109422999 / 31250000000) + h * (1824003 / 12500000 + h * (- (999 / 1250) + h * 1)))
      \<le> 109422999 / 31250000000 + 0.0001 * 1"
    by (rule norm_affine_bound [OF hd b2]) simp
  then have b1: "norm (- (109422999 / 31250000000) + h * (1824003 / 12500000 + h * (- (999 / 1250) + h * 1)))
      \<le> 0.004" by simp
  have "norm (0 + h * (- (109422999 / 31250000000) + h * (1824003 / 12500000 + h * (- (999 / 1250) + h * 1))))
      \<le> 0 + 0.0001 * 0.004"
    by (rule norm_affine_bound [OF hd b1]) simp
  then have "norm (4985093999 / 625000000000000 :: complex) \<le> 0.0001 * 0.004"
    by (simp only: eq add_0_left)
  then show False by simp
qed

lemma continuous_on_Polynomial:
  fixes coef :: "real list"
  shows "continuous_on S (\<lambda>x. Polynomial coef x)"
  by (induction coef) (auto intro!: continuous_intros)

lemma Polynomial_root_between:
  fixes coef :: "real list"
  assumes "a \<le> b"
    and "Polynomial coef a \<le> 0 \<and> 0 \<le> Polynomial coef b
         \<or> Polynomial coef b \<le> 0 \<and> 0 \<le> Polynomial coef a"
  shows "\<exists>x. a \<le> x \<and> x \<le> b \<and> Polynomial coef x = 0"
  using assms(2)
proof
  assume "Polynomial coef a \<le> 0 \<and> 0 \<le> Polynomial coef b"
  then show ?thesis
    using IVT' [of "Polynomial coef" a 0 b] assms(1) continuous_on_Polynomial [of "{a..b}" coef]
    by auto
next
  assume "Polynomial coef b \<le> 0 \<and> 0 \<le> Polynomial coef a"
  then show ?thesis
    using IVT2' [of "Polynomial coef" b 0 a] assms(1) continuous_on_Polynomial [of "{a..b}" coef]
    by auto
qed

lemma scenario_roots:
  defines "coefs \<equiv> [1, - 1, 0.2814, - 0.0247, 0.00064298 :: real]"
  shows "\<exists>x. Polynomial (rev coefs) x = 0 \<and> \<bar>x - 0.0502\<bar> \<le> 0.003"
    and "\<exists>x. Polynomial (rev coefs) x = 0 \<and> \<bar>x - 0.0784\<bar> \<le> 0.003"
    and "\<exists>x. Polynomial (rev coefs) x = 0 \<and> \<bar>x - 0.2793\<bar> \<le> 0.0005"
    and "\<exists>x. Polynomial (rev coefs) x = 0 \<and> \<bar>x - 0.5921\<bar> \<le> 0.0001"
proof -
  have "\<exists>x. 0.0480 \<le> x \<and> x \<le> 0.0482 \<and> Polynomial (rev coefs) x = 0"
    by (rule Polynomial_root_between) (simp_all add: coefs_def)
  then show "\<exists>x. Polynomial (rev coefs) x = 0 \<and> \<bar>x - 0.0502\<bar> \<le> 0.003"
    by (auto simp: abs_le_iff)
  have "\<exists>x. 0.0809 \<le> x \<and> x \<le> 0.0810 \<and> Polynomial (rev coefs) x = 0"
    by (rule Polynomial_root_between) (simp_all add: coefs_def)
  then show "\<exists>x. Polynomial (rev coefs) x = 0 \<and> \<bar>x - 0.0784\<bar> \<le> 0.003"
    by (auto simp: abs_le_iff)
  have "\<exists>x. 0.2788 \<le> x \<and> x \<le> 0.2789 \<and> Polynomial (rev coefs) x = 0"
    by (rule Polynomial_root_between) (simp_all add: coefs_def)
  then show "\<exists>x. Polynomial (rev coefs) x = 0 \<and> \<bar>x - 0.2793\<bar> \<le> 0.0005"
    by (auto simp: abs_le_iff)
  have "\<exists>x. 0.5920 \<le> x \<and> x \<le> 0.5921 \<and> Polynomial (rev coefs) x = 0"
    by (rule Polynomial_root_between) (simp_all add: coefs_def)
  then show "\<exists>x. Polynomial (rev coefs) x = 0 \<and> \<bar>x - 0.5921\<bar> \<le> 0.0001"
    by (auto simp: abs_le_iff)
qed

section \<open>Roots of the polynomial and eigenvalues of the matrix\<close>

subsection \<open>Newton's identities\<close>

lemma esym_0 [simp]: "esym es 0 = 1"
  by (induction es) simp_all


lemma esym_Suc: "esym (e # es) (Suc m) = esym es (Suc m) - e * esym es m"
  by simp












subsection \<open>Traces of the powers of a matrix similar to a triangular one\<close>



lemma clip_clip [simp]: "clip d (clip d X) = clip d X"
  by (intro ext) (simp add: clip_def)










lemma shape_matmul [simp]:
  "shape0 (matmul X Y) = shape0 X" "shape1 (matmul X Y) = shape1 Y"
  by (simp_all add: matmul_def)






subsection \<open>The diagonal of the triangular factor holds the eigenvalues\<close>












section \<open>The claims of the specification\<close>

text \<open>
  C1. For every \<open>d \<ge> 1\<close> and every trace vector with at least \<open>d\<close> entries,
  \<^verbatim>\<open>compute_coefs(d, traces)\<close> returns a sequence of exactly \<open>d + 1\<close> entries whose entry 0
  is exactly 1 and whose entry \<open>m\<close>, for \<open>1 \<le> m \<le> d\<close>, is \<open>auxiliary(m)\<close>, the recursion
  of the specification.
\<close>

theorem compute_coefs_correct:
  assumes "1 \<le> d" and "d \<le> int (length traces)"
  shows "\<exists>cs. compute_coefs beyond d traces = cs \<and> length cs = nat d + 1 \<and> cs ! 0 = 1
           \<and> (\<forall>m. 1 \<le> m \<and> m \<le> nat d \<longrightarrow> cs ! m = auxiliary traces m)"
proof -
  from assms(1) obtain d' where d: "d = int d'"
    using zero_le_imp_eq_int [of d] by auto
  have "compute_coefs beyond (int d') traces ! m = auxiliary traces m"
    if "1 \<le> m \<and> m \<le> d'" for m
  proof -
    have "m \<le> length traces" using that assms(2) d by arith
    then have "c_n_m beyond (int d') (int m) traces = auxiliary traces m"
      by (rule c_n_m_nat)
    moreover have "compute_coefs beyond (int d') traces ! m
        = c_n_m beyond (int d') (int m) traces"
      using that by (intro compute_coefs_nth) simp_all
    ultimately show ?thesis by (simp only:)
  qed
  then show ?thesis
    unfolding d by (simp add: length_compute_coefs compute_coefs_hd)
qed

theorem compute_coefs_correct_witness:
  "(1::int) \<le> 2 \<and> 2 \<le> int (length [1, 1 / 2 :: real])
   \<and> (\<exists>cs. compute_coefs (\<lambda>i. 0) 2 [1, 1 / 2 :: real] = cs \<and> length cs = nat 2 + 1
          \<and> cs ! 0 = 1
          \<and> (\<forall>m. 1 \<le> m \<and> m \<le> nat 2 \<longrightarrow> cs ! m = auxiliary [1, 1 / 2] m))"
  using compute_coefs_correct [of 2 "[1, 1 / 2 :: real]" "\<lambda>i. 0"] by simp

text \<open>
  C2. For every square matrix \<open>A\<close> of side length \<open>d \<ge> 1\<close>, \<^verbatim>\<open>get_traces\<close> returns a
  sequence of exactly \<open>d\<close> entries whose \<open>i\<close>-th entry (counted from 1, in increasing
  order of \<open>i\<close>) is the trace of the \<open>i\<close>-th power of \<open>A\<close>.
\<close>

theorem get_traces_correct:
  assumes "shape0 A = d" and "shape1 A = d" and "1 \<le> d"
  shows "\<exists>ts. get_traces A = Inr ts \<and> length ts = d
           \<and> (\<forall>i. 1 \<le> i \<and> i \<le> d \<longrightarrow> ts ! (i - 1) = trace (mat_pow A i))"
proof -
  define ts where "ts = map (\<lambda>i. trace (mat_pow A (i + 1))) [0..<d]"
  have "square A" using assms(1,2) by (simp add: square_def)
  then have "get_traces A = Inr ts"
    using get_traces_square [of A] assms(1) by (simp only: ts_def)
  moreover have "length ts = d"
    by (simp add: ts_def)
  moreover have "ts ! (i - 1) = trace (mat_pow A i)" if "1 \<le> i \<and> i \<le> d" for i
  proof -
    have "i - 1 < d" and "i - 1 + 1 = i" using that by arith+
    then show ?thesis by (simp add: ts_def)
  qed
  ultimately show ?thesis by blast
qed

theorem get_traces_correct_witness:
  "shape0 (array [[1, 2], [3, 4 :: real]]) = 2 \<and> shape1 (array [[1, 2], [3, 4 :: real]]) = 2
   \<and> 1 \<le> (2::nat)
   \<and> (\<exists>ts. get_traces (array [[1, 2], [3, 4 :: real]]) = Inr ts \<and> length ts = 2
          \<and> ts ! 0 = 5 \<and> ts ! 1 = 29)"
proof -
  let ?A = "array [[1, 2], [3, 4 :: real]]"
  have sh: "shape0 ?A = 2" "shape1 ?A = 2" by (simp_all add: array_def)
  from get_traces_correct [OF sh] obtain ts where
    ts: "get_traces ?A = Inr ts" "length ts = 2"
      "\<forall>i. 1 \<le> i \<and> i \<le> 2 \<longrightarrow> ts ! (i - 1) = trace (mat_pow ?A i)"
    by auto
  have "ts ! (1 - 1) = trace (mat_pow ?A 1)" "ts ! (2 - 1) = trace (mat_pow ?A 2)"
    using ts(3) [rule_format, of 1] ts(3) [rule_format, of 2] by simp_all
  moreover have "trace (mat_pow ?A 1) = 5"
    by (simp add: trace_def array_def upt_rec)
  moreover have "trace (mat_pow ?A 2) = 29"
    by (simp add: trace_def array_def matmul_def eval_nat_numeral upt_rec)
  ultimately show ?thesis using sh ts(1,2) by simp
qed

text \<open>
  C3, as the specification states it: for \<open>d = 4\<close> and the trace vector
  \<open>[1.0, 0.4372, 0.2299, 0.1290]\<close> the coefficients are about
  \<open>[1, -1, 0.2814, -0.0247, 0.00065]\<close> and the roots of that polynomial are within
  \<open>10\<^sup>-\<^sup>4\<close> of \<open>0.0502\<close>, \<open>0.0784\<close>, \<open>0.2793\<close> and \<open>0.5921\<close>. The coefficients are
  right, but the polynomial they define has no root, real or complex, within \<open>10\<^sup>-\<^sup>4\<close>
  of \<open>0.0502\<close>.
\<close>

theorem scenario_no_root_within_tolerance:
  "(\<forall>beyond. compute_coefs beyond 4 [1, 0.4372, 0.2299, 0.1290 :: complex]
       = [1, - 1, 0.2814, - 0.0247, 0.00064298])
   \<and> \<not> (\<exists>z. Polynomial (rev [1, - 1, 0.2814, - 0.0247, 0.00064298 :: complex]) z = 0
            \<and> cmod (z - 0.0502) \<le> 0.0001)"
  using scenario_coefs [where 'a = complex] scenario_no_root_near by blast

text \<open>
  C3, amended: for \<open>d = 4\<close> and the trace vector \<open>[1.0, 0.4372, 0.2299, 0.1290]\<close>,
  \<^verbatim>\<open>compute_coefs\<close> returns \<open>[1, -1, 0.2814, -0.0247, 0.00064298]\<close>, which agrees with
  \<open>[1, -1, 0.2814, -0.0247, 0.00065]\<close> to within \<open>10\<^sup>-\<^sup>4\<close>, and the polynomial has
  real roots within \<open>3 \<cdot> 10\<^sup>-\<^sup>3\<close> of \<open>0.0502\<close> and \<open>0.0784\<close>, within
  \<open>5 \<cdot> 10\<^sup>-\<^sup>4\<close> of \<open>0.2793\<close> and within \<open>10\<^sup>-\<^sup>4\<close> of \<open>0.5921\<close>.
\<close>

theorem scenario_coefficients_and_roots:
  "\<exists>coefs. (\<forall>beyond. compute_coefs beyond 4 [1, 0.4372, 0.2299, 0.1290 :: real] = coefs)
     \<and> coefs = [1, - 1, 0.2814, - 0.0247, 0.00064298]
     \<and> \<bar>coefs ! 0 - 1\<bar> \<le> 0.0001 \<and> \<bar>coefs ! 1 - (- 1)\<bar> \<le> 0.0001
     \<and> \<bar>coefs ! 2 - 0.2814\<bar> \<le> 0.0001 \<and> \<bar>coefs ! 3 - (- 0.0247)\<bar> \<le> 0.0001
     \<and> \<bar>coefs ! 4 - 0.00065\<bar> \<le> 0.0001
     \<and> (\<exists>x. Polynomial (rev coefs) x = 0 \<and> \<bar>x - 0.0502\<bar> \<le> 0.003)
     \<and> (\<exists>x. Polynomial (rev coefs) x = 0 \<and> \<bar>x - 0.0784\<bar> \<le> 0.003)
     \<and> (\<exists>x. Polynomial (rev coefs) x = 0 \<and> \<bar>x - 0.2793\<bar> \<le> 0.0005)
     \<and> (\<exists>x. Polynomial (rev coefs) x = 0 \<and> \<bar>x - 0.5921\<bar> \<le> 0.0001)"
proof (intro exI [of _ "[1, - 1, 0.2814, - 0.0247, 0.00064298 :: real]"] conjI allI)
  show "compute_coefs beyond 4 [1, 0.4372, 0.2299, 0.1290 :: real]
      = [1, - 1, 0.2814, - 0.0247, 0.00064298]" for beyond
    by (rule scenario_coefs)
  show "\<exists>x. Polynomial (rev [1, - 1, 0.2814, - 0.0247, 0.00064298 :: real]) x = 0
      \<and> \<bar>x - 0.0502\<bar> \<le> 0.003"
    by (rule scenario_roots)
  show "\<exists>x. Polynomial (rev [1, - 1, 0.2814, - 0.0247, 0.00064298 :: real]) x = 0
      \<and> \<bar>x - 0.0784\<bar> \<le> 0.003"
    by (rule scenario_roots)
  show "\<exists>x. Polynomial (rev [1, - 1, 0.2814, - 0.0247, 0.00064298 :: real]) x = 0
      \<and> \<bar>x - 0.2793\<bar> \<le> 0.0005"
    by (rule scenario_roots)
  show "\<exists>x. Polynomial (rev [1, - 1, 0.2814, - 0.0247, 0.00064298 :: real]) x = 0
      \<and> \<bar>x - 0.5921\<bar> \<le> 0.0001"
    by (rule scenario_roots)
qed simp_all

text \<open>
  C4, as the specification states it: the coefficient builder caches \<open>auxiliary(m)\<close> for
  each \<open>m\<close>, and the cached evaluation gives the values of the naive recursion. With a
  cache the body of the auxiliary function would run at most once for each of the \<open>d + 1\<close>
  arguments \<open>0..d\<close>. The source keeps no cache: one call \<^verbatim>\<open>c_n_m(4, 4, traces)\<close> runs the
  body 16 times.
\<close>

theorem c_n_m_recomputes:
  "snd (c_n_m_calls (\<lambda>i. 0) 4 4 [1, 1, 1, 1 :: real] 0) = 16 \<and> (4 + 1 :: nat) < 16"
  using c_n_m_calls_nat [of "\<lambda>i. 0" 4 4 "[1, 1, 1, 1 :: real]" 0] by simp

text \<open>
  C4, amended: \<^verbatim>\<open>c_n_m\<close> is the naive unmemoized recursion, without a cache: for
  \<open>m \<le> d \<le> len(traces)\<close> a call \<^verbatim>\<open>c_n_m(n, m, traces)\<close> runs the body \<open>2\<^sup>m\<close> times. Its
  values are identical to those of the specification's recursion and to those of a
  bottom-up table of size \<open>d + 1\<close>, for every \<open>m \<le> d\<close> and every \<open>d\<close>.
\<close>

theorem c_n_m_naive_equals_table:
  assumes "m \<le> d" and "d \<le> length traces"
  shows "snd (c_n_m_calls beyond n (int m) traces 0) = 2 ^ m
         \<and> fst (c_n_m_calls beyond n (int m) traces 0) = c_n_m beyond n (int m) traces
         \<and> length (aux_table traces d) = d + 1
         \<and> c_n_m beyond n (int m) traces = aux_table traces d ! m
         \<and> aux_table traces d ! m = auxiliary traces m"
proof -
  have "m \<le> length traces" using assms by simp
  then show ?thesis
    using assms(1)
    by (simp add: c_n_m_calls_nat c_n_m_nat aux_table_nth length_aux_table)
qed

theorem c_n_m_naive_equals_table_witness:
  "(2::nat) \<le> 3 \<and> 3 \<le> length [1, 1 / 2, 1 / 3 :: real]
   \<and> snd (c_n_m_calls (\<lambda>i. 0) 3 (int 2) [1, 1 / 2, 1 / 3 :: real] 0) = 2 ^ 2
   \<and> length (aux_table [1, 1 / 2, 1 / 3 :: real] 3) = 3 + 1
   \<and> c_n_m (\<lambda>i. 0) 3 (int 2) [1, 1 / 2, 1 / 3 :: real] = aux_table [1, 1 / 2, 1 / 3] 3 ! 2"
  using c_n_m_naive_equals_table [of 2 3 "[1, 1 / 2, 1 / 3 :: real]" "\<lambda>i. 0" 3] by simp



text \<open>
  C6, as the specification states it: the trace-vector operation fails with
  \<open>InvalidDimension\<close>, raised at its start, whenever the matrix is not square or the
  declared dimension differs from the side length. \<^verbatim>\<open>get_traces\<close> has no dimension argument
  and no check of its own: for a \<open>0 \<times> 3\<close> array, which is not square, the loop body never
  runs and the call returns the empty vector.
\<close>

theorem get_traces_no_rows_returns:
  "\<not> square (zeros 0 3 :: real ndarray) \<and> get_traces (zeros 0 3 :: real ndarray) = Inr []"
  by (simp add: get_traces_no_rows square_def zeros_def)

text \<open>
  C6, amended: \<^verbatim>\<open>get_traces\<close> takes the matrix only, validates nothing itself and never
  fails with \<open>InvalidDimension\<close>. On a matrix that is not square and has at least one row
  it fails with the \<open>LinAlgError\<close> that \<^verbatim>\<open>np.linalg.matrix_power\<close> raises in the first
  iteration of the loop; on a matrix without rows it returns the empty vector.
\<close>

theorem get_traces_no_validation:
  "get_traces rho \<noteq> Inl InvalidDimension
   \<and> (shape0 rho = 0 \<longrightarrow> get_traces rho = Inr [])
   \<and> (shape0 rho \<noteq> 0 \<and> \<not> square rho \<longrightarrow> get_traces rho = Inl LinAlgError)"
proof (cases "square rho")
  case True
  then show ?thesis by (simp add: get_traces_square get_traces_no_rows)
next
  case False
  then show ?thesis
    by (cases "shape0 rho = 0") (simp_all add: get_traces_not_square get_traces_no_rows)
qed

theorem get_traces_no_validation_witness:
  "shape0 (zeros 0 2 :: real ndarray) = 0 \<and> get_traces (zeros 0 2 :: real ndarray) = Inr []
   \<and> shape0 (array [[1, 2, 3], [4, 5, 6 :: real]]) \<noteq> 0
   \<and> \<not> square (array [[1, 2, 3], [4, 5, 6 :: real]])
   \<and> get_traces (array [[1, 2, 3], [4, 5, 6 :: real]]) = Inl LinAlgError"
  using get_traces_no_validation [of "zeros 0 2 :: real ndarray"]
    get_traces_no_validation [of "array [[1, 2, 3], [4, 5, 6 :: real]]"]
  by (simp add: square_def zeros_def array_def)

text \<open>
  C7, as the specification states it: \<^verbatim>\<open>compute_coefs\<close> fails with \<open>InvalidDimension\<close>
  whenever \<open>d < 1\<close> or the trace vector has fewer than \<open>d\<close> entries. The source has no
  such check: with \<open>d = 0\<close> the loop body never runs and the call returns the one-entry
  vector.
\<close>

theorem compute_coefs_zero_dimension:
  "(0::int) < 1 \<and> (\<forall>beyond. compute_coefs beyond 0 ([] :: real list) = [1])"
  by (simp add: compute_coefs_def)

text \<open>
  C7, amended: \<^verbatim>\<open>compute_coefs\<close> validates nothing and never fails. For \<open>d < 1\<close> it
  returns the vector \<open>[1]\<close>. For \<open>d \<ge> 1\<close> it returns \<open>d + 1\<close> entries, also when the trace
  vector has fewer than \<open>d\<close> entries; the entries \<open>m \<le> len(traces)\<close> are the values of the
  recursion, and the later ones are computed from whatever the unchecked subscript reads
  behind the array.
\<close>

theorem compute_coefs_no_validation:
  "(d < 1 \<longrightarrow> compute_coefs beyond d traces = [1])
   \<and> length (compute_coefs beyond d traces) = nat d + 1
   \<and> (\<forall>m. m \<le> nat d \<and> m \<le> length traces \<longrightarrow>
          compute_coefs beyond d traces ! m = auxiliary traces m)"
proof -
  have "compute_coefs beyond d traces ! m = auxiliary traces m"
    if "m \<le> nat d \<and> m \<le> length traces" for m
  proof (cases "m = 0")
    case True
    then show ?thesis by (simp add: compute_coefs_hd auxiliary.simps)
  next
    case False
    then have "0 \<le> d" using that by arith
    then obtain d' where d: "d = int d'"
      using zero_le_imp_eq_int [of d] by auto
    have "c_n_m beyond (int d') (int m) traces = auxiliary traces m"
      using that by (intro c_n_m_nat) simp
    moreover have "compute_coefs beyond (int d') traces ! m
        = c_n_m beyond (int d') (int m) traces"
      using that False d by (intro compute_coefs_nth) simp_all
    ultimately show ?thesis unfolding d by (simp only:)
  qed
  then show ?thesis
    by (simp add: compute_coefs_nonpositive length_compute_coefs)
qed

theorem compute_coefs_no_validation_witness:
  "(- 1 :: int) < 1 \<and> compute_coefs (\<lambda>i. 0) (- 1) [5 :: real] = [1]
   \<and> int (length [1 :: real]) < 2 \<and> length (compute_coefs (\<lambda>i. 0) 2 [1 :: real]) = 3
   \<and> compute_coefs (\<lambda>i. 0) 2 [1 :: real] ! 1 = - 1"
proof -
  have "compute_coefs (\<lambda>i. 0) (- 1) [5 :: real] = [1]"
    using compute_coefs_no_validation [of "- 1" "\<lambda>i. 0" "[5 :: real]", THEN conjunct1]
    by simp
  moreover have "length (compute_coefs (\<lambda>i. 0) 2 [1 :: real]) = 3"
    using compute_coefs_no_validation [of 2 "\<lambda>i. 0" "[1 :: real]", THEN conjunct2,
      THEN conjunct1]
    by simp
  moreover have "compute_coefs (\<lambda>i. 0) 2 [1 :: real] ! 1 = auxiliary [1] 1"
    using compute_coefs_no_validation [of 2 "\<lambda>i. 0" "[1 :: real]", THEN conjunct2,
      THEN conjunct2, THEN spec, of 1]
    by simp
  moreover have "auxiliary [1 :: real] 1 = - 1"
    by (subst auxiliary.simps) (simp add: auxiliary.simps [of _ 0])
  ultimately show ?thesis by simp
qed

text \<open>
  C8. For \<open>d = 1\<close> and a \<open>1 \<times> 1\<close> matrix \<open>A\<close>: the trace vector is \<open>[A[0][0]]\<close>, the
  coefficient vector is \<open>[1, -A[0][0]]\<close>, and the polynomial handed to the root finder has
  the single root \<open>A[0][0]\<close>.
\<close>

theorem dimension_one:
  fixes A :: "'a::field ndarray"
  assumes "shape0 A = 1" and "shape1 A = 1"
  shows "get_traces A = Inr [item A 0 0]
         \<and> compute_coefs beyond 1 [item A 0 0] = [1, - item A 0 0]
         \<and> (\<forall>x. Polynomial (rev [1, - item A 0 0]) x = 0 \<longleftrightarrow> x = item A 0 0)"
proof -
  have "get_traces A = Inr [item A 0 0]"
    using assms by (simp add: get_traces_square square_def trace_def)
  moreover have "compute_coefs beyond 1 [item A 0 0] = [1, - item A 0 0]"
    using compute_coefs_loop [of beyond 1 "[item A 0 0]"] by (simp add: c_n_m_one)
  moreover have "Polynomial (rev [1, - item A 0 0]) x = 0 \<longleftrightarrow> x = item A 0 0" for x
    by simp
  ultimately show ?thesis by simp
qed

theorem dimension_one_witness:
  "shape0 (array [[3 :: real]]) = 1 \<and> shape1 (array [[3 :: real]]) = 1
   \<and> get_traces (array [[3 :: real]]) = Inr [3]
   \<and> compute_coefs (\<lambda>i. 0) 1 [3 :: real] = [1, - 3]
   \<and> Polynomial (rev [1, - 3 :: real]) 3 = 0"
  using dimension_one [of "array [[3 :: real]]" "\<lambda>i. 0"]
  by (simp add: array_def)

text \<open>
  C9. The result of \<^verbatim>\<open>c_n_m(n, m, vec_of_traces)\<close> does not depend on its first argument:
  for all \<open>n\<close>, \<open>n'\<close>, every \<open>m\<close> (in particular every \<open>m \<ge> 0\<close>) and every trace vector the
  two calls give the same value.
\<close>

theorem c_n_m_ignores_first_argument:
  "c_n_m beyond n m v = c_n_m beyond n' m v"
proof (induction "nat m" arbitrary: m rule: less_induct)
  case less
  show ?case
  proof (cases "m = 0")
    case True
    then show ?thesis by (simp add: c_n_m.simps)
  next
    case False
    have "fold (\<lambda>k suma. suma + c_n_m beyond n (m - k) v * getitem beyond v (k - 1)) [1..m] 0
        = fold (\<lambda>k suma. suma + c_n_m beyond n' (m - k) v * getitem beyond v (k - 1)) [1..m] 0"
    proof (rule fold_cong [OF refl refl])
      fix k
      assume "k \<in> set [1..m]"
      then have "nat (m - k) < nat m" by auto
      then have "c_n_m beyond n (m - k) v = c_n_m beyond n' (m - k) v"
        by (rule less)
      then show "(\<lambda>suma. suma + c_n_m beyond n (m - k) v * getitem beyond v (k - 1))
          = (\<lambda>suma. suma + c_n_m beyond n' (m - k) v * getitem beyond v (k - 1))"
        by (simp only:)
    qed
    then show ?thesis
      by (subst c_n_m.simps, subst (2) c_n_m.simps) (simp only:)
  qed
qed

text \<open>
  C10. For every \<open>d \<ge> 1\<close> and every trace vector with at least one entry,
  \<^verbatim>\<open>compute_coefs\<close> returns a coefficient vector whose entry 1 is the negation of the first
  trace, and is exactly \<open>-1\<close> when the first trace is 1. This holds also when the trace
  vector has fewer than \<open>d\<close> entries, whatever the unchecked subscript reads behind it.
\<close>

theorem coefficient_one_is_minus_first_trace:
  assumes "1 \<le> d" and "1 \<le> length traces"
  shows "\<exists>cs. compute_coefs beyond d traces = cs \<and> length cs = nat d + 1
           \<and> cs ! 1 = - (traces ! 0) \<and> (traces ! 0 = 1 \<longrightarrow> cs ! 1 = - 1)"
proof -
  from assms(1) obtain d' where d: "d = int d'"
    using zero_le_imp_eq_int [of d] by auto
  have "1 \<le> d'" using assms(1) d by simp
  then have "compute_coefs beyond (int d') traces ! 1 = c_n_m beyond (int d') (int 1) traces"
    by (intro compute_coefs_nth) simp_all
  then have "compute_coefs beyond d traces ! 1 = - (traces ! 0)"
    using assms(2) unfolding d by (simp add: c_n_m_one)
  then show ?thesis
    by (simp add: length_compute_coefs)
qed

theorem coefficient_one_is_minus_first_trace_witness:
  "(1::int) \<le> 2 \<and> 1 \<le> length [1 :: real]
   \<and> (\<exists>cs. compute_coefs (\<lambda>i. 7) 2 [1 :: real] = cs \<and> length cs = 3 \<and> cs ! 1 = - 1)"
  using coefficient_one_is_minus_first_trace [of 2 "[1 :: real]" "\<lambda>i. 7"] by simp

end
